theory Spec2Isabelle
  imports Main "HOL-Library.Sublist"
begin

section \<open>Values and strings of the host language\<close>

text \<open>
  The application is TypeScript. A string of the program is modelled as a HOL
  \<open>string\<close>; a value of type \<open>unknown\<close> (anything a \<open>throw\<close> can carry) is one of
  the shapes below. \<open>JsError v\<close> is an object for which \<open>instanceof Error\<close> holds
  (\<open>Error\<close> itself or a subclass such as \<open>TypeError\<close>, \<open>URIError\<close>) and whose
  \<open>message\<close> property holds the value \<open>v\<close>: the string \<open>m\<close> for the ordinary
  \<open>JsError (JsString m)\<close>, as \<open>new Error(m)\<close> makes it, but possibly any other
  value, since nothing at run time keeps a program from storing one there. Every other
  constructor is a value that is not an \<open>Error\<close>. A plain object is a list of its
  properties: it may well own a \<open>message\<close> property without being an \<open>Error\<close>.
  Arrays and functions are not among the values modelled, so that strings are the only
  values here that have an \<open>includes\<close> method.
\<close>

datatype js_value =
    JsError js_value
  | JsString string
  | JsNumber int
  | JsBool bool
  | JsNull
  | JsUndefined
  | JsObject "(string \<times> string) list"

type_synonym 'a result = "js_value + 'a"

text \<open>\<open>s.includes(p)\<close>: whether \<open>p\<close> occurs in \<open>s\<close> as a contiguous run of characters.\<close>

fun starts_with :: "string \<Rightarrow> string \<Rightarrow> bool" where
  "starts_with s [] = True"
| "starts_with [] (p # ps) = False"
| "starts_with (c # cs) (p # ps) = (c = p \<and> starts_with cs ps)"

fun str_includes :: "string \<Rightarrow> string \<Rightarrow> bool" where
  "str_includes [] p = (p = [])"
| "str_includes (c # cs) p = (starts_with (c # cs) p \<or> str_includes cs p)"

text \<open>
  Letter case, for stating that two messages differ in case only: the lower-case form of
  an ASCII letter, every other character unchanged. The upper-case letters are the codes
  65 to 90, and the lower-case form of one is the code plus 32, that is, the same bits
  with bit 5 set.
\<close>

definition to_lower :: "char \<Rightarrow> char" where
  "to_lower c =
     (let n = (of_char c :: nat)
      in if 65 \<le> n \<and> n \<le> 90
         then Char (digit0 c) (digit1 c) (digit2 c) (digit3 c) (digit4 c) True (digit6 c) (digit7 c)
         else c)"

definition same_ignoring_case :: "string \<Rightarrow> string \<Rightarrow> bool" where
  "same_ignoring_case a b = (map to_lower a = map to_lower b)"

section \<open>The error classifier\<close>

text \<open>
  What \<open>v.includes(p)\<close> throws for a value \<open>v\<close> that is not a string: a
  \<open>TypeError\<close>, since \<open>undefined\<close> and \<open>null\<close> have no properties and the other
  values no such method. The message texts are those of the V8 engine.
\<close>

definition no_includes :: "js_value \<Rightarrow> js_value" where
  "no_includes v =
     (case v of
        JsUndefined \<Rightarrow>
          JsError (JsString ''Cannot read properties of undefined (reading 'includes')'')
      | JsNull \<Rightarrow>
          JsError (JsString ''Cannot read properties of null (reading 'includes')'')
      | _ \<Rightarrow> JsError (JsString ''message.includes is not a function''))"

text \<open>
  \<open>parseErrorMessage\<close> of \<open>App.tsx\<close>: the first pattern found in the message wins.
  The function reads \<open>error.message\<close> and calls its \<open>includes\<close> method at once, so
  for an \<open>Error\<close> whose message is not a string the first test throws, and the
  function returns nothing.
\<close>

definition parseErrorMessage :: "js_value \<Rightarrow> string list result" where
  "parseErrorMessage error =
     (case error of
        JsError message_value \<Rightarrow>
          (case message_value of
             JsString message \<Rightarrow>
               if str_includes message ''API key not valid'' then
                 Inr [''Your API key is not valid.'',
                      ''Please check your API key and try again.'']
               else if str_includes message ''permission denied'' then
                 Inr [''Permission Denied.'',
                      ''This model may require a specific tier or project configuration. Please check your project settings.'']
               else if str_includes message ''User location is not supported'' then
                 Inr [''Location Not Supported.'',
                      ''The model is not available in your current location.'']
               else if str_includes message ''Billing account not found'' then
                 Inr [''Billing Issue.'',
                      ''A valid billing account is required. Please select a Cloud Project with billing enabled.'']
               else Inr [''Video generation failed:'', message]
           | _ \<Rightarrow> Inl (no_includes message_value))
      | _ \<Rightarrow>
          Inr [''An unexpected error occurred.'',
               ''Please check the console for more details.''])"

text \<open>The four patterns of the classifier, in the order in which it tries them.\<close>

definition patterns :: "string list" where
  "patterns = [''API key not valid'', ''permission denied'',
               ''User location is not supported'', ''Billing account not found'']"

section \<open>Small pieces of the host language\<close>

text \<open>
  A template literal prints an absent value as the word \<open>undefined\<close>; \<open>None\<close>
  stands for \<open>undefined\<close>.
\<close>

definition template :: "string option \<Rightarrow> string" where
  "template v = (case v of None \<Rightarrow> ''undefined'' | Some s \<Rightarrow> s)"

text \<open>A non-negative whole number printed in decimal, as a template literal prints it.\<close>

fun show_nat :: "nat \<Rightarrow> string" where
  "show_nat n =
     (if n < 10 then [''0123456789'' ! n]
      else show_nat (n div 10) @ [''0123456789'' ! (n mod 10)])"

declare show_nat.simps [simp del]

text \<open>\<open>s.split(c)\<close> for a one-character separator, and \<open>xs[i]\<close>, \<open>undefined\<close> out of range.\<close>

fun str_split :: "char \<Rightarrow> string \<Rightarrow> string list" where
  "str_split sep [] = [[]]"
| "str_split sep (c # cs) =
     (if c = sep then [] # str_split sep cs
      else (case str_split sep cs of
              [] \<Rightarrow> [[c]]
            | x # xs \<Rightarrow> (c # x) # xs))"

fun at_index :: "'a list \<Rightarrow> nat \<Rightarrow> 'a option" where
  "at_index [] i = None"
| "at_index (x # xs) 0 = Some x"
| "at_index (x # xs) (Suc i) = at_index xs i"



section \<open>The video generation backend and the browser\<close>

text \<open>
  The argument of \<open>ai.models.generateVideos\<close>, the operation it returns, and the
  generated videos of a finished operation. The types come from the client library; the
  fields are the ones \<open>App.tsx\<close> reads. \<open>done\<close> and \<open>response\<close> are optional in the
  library, and so is \<open>generatedVideos\<close> inside a response.
\<close>

record request =
  model :: string
  prompt :: string
  numberOfVideos :: int
  aspectRatio :: string

record generated_video =
  uri :: string

record videos_response =
  generatedVideos :: "generated_video list option"

record operation =
  op_name :: string
  op_done :: "bool option"
  op_response :: "videos_response option"

text \<open>
  What \<open>fetch\<close> resolves to: \<open>blob\<close> is the outcome of \<open>res.blob()\<close>, a binary
  payload of some type \<open>'b\<close> or the reason of its rejection.
\<close>

record 'b http_response =
  ok :: bool
  status :: nat
  statusText :: string
  blob :: "'b result"

text \<open>
  Everything outside the program is a parameter. The backend has a state of some type
  \<open>'w\<close>, which submitting a job and re-fetching its status may change: the same
  operation polled twice need not give the same answer. Each call either returns or
  throws. \<open>fetch\<close> reads the state the backend is in when the media are downloaded.
  \<open>decodeURIComponent\<close> throws on a malformed escape sequence. \<open>readAsDataURL\<close> is
  the data URL a \<open>FileReader\<close> produces for a payload. \<open>API_KEY\<close> is
  \<open>process.env.API_KEY\<close>. The media are downloaded concurrently: \<open>settled_at i\<close> is
  the time at which the promise of the \<open>i\<close>-th download settles. \<open>randomUUID\<close> is
  \<open>self.crypto.randomUUID()\<close>, which draws the identifier of a new video, or throws
  where the browser does not offer it.
\<close>

record ('w, 'b) environment =
  generateVideos :: "'w \<Rightarrow> request \<Rightarrow> operation result \<times> 'w"
  getVideosOperation :: "'w \<Rightarrow> operation \<Rightarrow> operation result \<times> 'w"
  fetch :: "'w \<Rightarrow> string \<Rightarrow> 'b http_response result"
  decodeURIComponent :: "string \<Rightarrow> string result"
  readAsDataURL :: "'b \<Rightarrow> string"
  API_KEY :: "string option"
  settled_at :: "nat \<Rightarrow> nat"
  randomUUID :: "'w \<Rightarrow> string result \<times> 'w"

text \<open>
  What a run does to the outside, in order. \<open>CheckDone b\<close> records one evaluation of
  the loop condition of the polling loop, \<open>b\<close> telling whether the operation was seen
  done. \<open>Uncaught e\<close> records that a handler of the page ended by throwing \<open>e\<close>,
  which nothing catches.
\<close>

datatype event =
    GenerateVideos request
  | CheckDone bool
  | SetTimeout nat
  | ConsoleLog "string list"
  | ConsoleError string js_value
  | Uncaught js_value
  | GetVideosOperation operation
  | Fetch string

section \<open>The generation workflow\<close>

definition VEO_MODEL_NAME :: string where
  "VEO_MODEL_NAME = ''veo-2.0-generate-001''"

text \<open>
  \<open>bloblToBase64\<close>: the part of the data URL between its first and its second comma,
  \<open>undefined\<close> when the URL has no comma. The reader is taken to load the payload:
  the function sets no error handler, and its promise is never rejected.
\<close>

definition bloblToBase64 :: "('w, 'b) environment \<Rightarrow> 'b \<Rightarrow> string option" where
  "bloblToBase64 env b = at_index (str_split CHR '','' (readAsDataURL env b)) 1"

text \<open>
  The polling loop \<open>while (!operation.done)\<close>. Nothing bounds the number of its
  rounds, so the model takes a number of rounds it may run: the result is \<open>None\<close> when
  that many rounds did not end the loop, \<open>Some (Inl e)\<close> when a status re-fetch threw
  \<open>e\<close>, and \<open>Some (Inr operation)\<close> when the loop ended at \<open>operation\<close>.
\<close>

definition poll_round :: "operation \<Rightarrow> event list" where
  "poll_round operation =
     [CheckDone False, SetTimeout 10000, ConsoleLog [''...Generating...''],
      GetVideosOperation operation]"

fun poll_loop ::
  "nat \<Rightarrow> ('w, 'b) environment \<Rightarrow> 'w \<Rightarrow> operation
     \<Rightarrow> operation result option \<times> 'w \<times> event list" where
  "poll_loop 0 env w operation = (None, w, [])"
| "poll_loop (Suc n) env w operation =
     (if op_done operation \<noteq> Some True then
        (case getVideosOperation env w operation of
           (Inl e, w') \<Rightarrow> (Some (Inl e), w', poll_round operation)
         | (Inr operation', w') \<Rightarrow>
             (case poll_loop n env w' operation' of
                (r, w'', tr) \<Rightarrow> (r, w'', poll_round operation @ tr)))
      else (Some (Inr operation), w, [CheckDone True]))"

text \<open>
  The callback of \<open>videos.map\<close>, as the outcome of the promise it returns, and the
  request it sends, if it gets that far.
\<close>

definition media_url :: "('w, 'b) environment \<Rightarrow> string \<Rightarrow> string" where
  "media_url env url = url @ ''&key='' @ template (API_KEY env)"

definition download ::
  "('w, 'b) environment \<Rightarrow> 'w \<Rightarrow> generated_video \<Rightarrow> string option result" where
  "download env w generatedVideo =
     (case decodeURIComponent env (uri generatedVideo) of
        Inl e \<Rightarrow> Inl e
      | Inr url \<Rightarrow>
          (case fetch env w (media_url env url) of
             Inl e \<Rightarrow> Inl e
           | Inr res \<Rightarrow>
               if \<not> ok res then
                 Inl (JsError (JsString (''Failed to fetch video: '' @ show_nat (status res)
                                           @ '' '' @ statusText res)))
               else
                 (case blob res of
                    Inl e \<Rightarrow> Inl e
                  | Inr b \<Rightarrow> Inr (bloblToBase64 env b))))"

definition download_events :: "('w, 'b) environment \<Rightarrow> generated_video \<Rightarrow> event list" where
  "download_events env generatedVideo =
     (case decodeURIComponent env (uri generatedVideo) of
        Inl e \<Rightarrow> []
      | Inr url \<Rightarrow> [Fetch (media_url env url)])"

text \<open>
  \<open>Promise.all\<close>: fulfilled with the values in the order of the promises when all of
  them are fulfilled, and otherwise rejected with the reason of the promise that was
  rejected first in time (of the one with the smaller index, should two have the same
  time).
\<close>

primrec rejections :: "nat \<Rightarrow> 'a result list \<Rightarrow> (nat \<times> js_value) list" where
  "rejections i [] = []"
| "rejections i (r # rs) =
     (case r of
        Inl e \<Rightarrow> (i, e) # rejections (Suc i) rs
      | Inr v \<Rightarrow> rejections (Suc i) rs)"

primrec fulfilments :: "'a result list \<Rightarrow> 'a list" where
  "fulfilments [] = []"
| "fulfilments (r # rs) =
     (case r of
        Inl e \<Rightarrow> fulfilments rs
      | Inr v \<Rightarrow> v # fulfilments rs)"

primrec earliest ::
  "(nat \<Rightarrow> nat) \<Rightarrow> nat \<times> js_value \<Rightarrow> (nat \<times> js_value) list \<Rightarrow> nat \<times> js_value" where
  "earliest t best [] = best"
| "earliest t best (c # cs) =
     earliest t (if t (fst c) < t (fst best) then c else best) cs"

definition promise_all :: "(nat \<Rightarrow> nat) \<Rightarrow> 'a result list \<Rightarrow> 'a list result" where
  "promise_all t rs =
     (case rejections 0 rs of
        [] \<Rightarrow> Inr (fulfilments rs)
      | c # cs \<Rightarrow> Inl (snd (earliest t c cs)))"

text \<open>What follows the polling loop, from \<open>if (operation?.response)\<close> on.\<close>

definition collect ::
  "('w, 'b) environment \<Rightarrow> 'w \<Rightarrow> operation \<Rightarrow> string option list result \<times> event list" where
  "collect env w operation =
     (case op_response operation of
        Some response \<Rightarrow>
          (case generatedVideos response of
             None \<Rightarrow> (Inl (JsError (JsString ''No videos generated'')), [])
           | Some videos \<Rightarrow>
               if length videos = 0 then (Inl (JsError (JsString ''No videos generated'')), [])
               else (promise_all (settled_at env) (map (download env w) videos),
                     concat (map (download_events env) videos)))
      | None \<Rightarrow> (Inl (JsError (JsString ''No videos generated'')), []))"

text \<open>
  \<open>generateVideoFromText\<close>. The count is optional and defaults to 1. The result is
  the state the promise is in after the given number of polling rounds (\<open>None\<close>: still
  pending), with the state of the backend and the events so far.
\<close>

definition generateVideoFromText ::
  "nat \<Rightarrow> ('w, 'b) environment \<Rightarrow> 'w \<Rightarrow> string \<Rightarrow> int option
     \<Rightarrow> string option list result option \<times> 'w \<times> event list" where
  "generateVideoFromText fuel env w prompt_text count =
     (let n = (case count of None \<Rightarrow> 1 | Some c \<Rightarrow> c);
          req = \<lparr>model = VEO_MODEL_NAME, prompt = prompt_text,
                 numberOfVideos = n, aspectRatio = ''16:9''\<rparr>
      in case generateVideos env w req of
           (Inl e, w1) \<Rightarrow> (Some (Inl e), w1, [GenerateVideos req])
         | (Inr operation, w1) \<Rightarrow>
             (case poll_loop fuel env w1 operation of
                (None, w2, tr) \<Rightarrow> (None, w2, GenerateVideos req # tr)
              | (Some (Inl e), w2, tr) \<Rightarrow> (Some (Inl e), w2, GenerateVideos req # tr)
              | (Some (Inr operation'), w2, tr) \<Rightarrow>
                  (case collect env w2 operation' of
                     (r, tr') \<Rightarrow> (Some r, w2, GenerateVideos req # tr @ tr'))))"

section \<open>The application state and the two callers\<close>

record video =
  video_id :: string
  title :: string
  description :: string
  videoUrl :: string

datatype theme = Light | Dark

text \<open>
  The counter of generated videos is a number of the language, that is, a double. It
  starts as 0 or as what \<open>parseInt\<close> makes of the text kept in the local storage, and
  is only ever incremented: it is a whole number, \<open>NaN\<close> or an infinity.
  \<open>Finite n\<close> is the double whose value is the integer \<open>n\<close> (minus zero, which
  \<open>parseInt\<close> can return, is not told apart from zero: both give 1 when 1 is added).
\<close>

datatype js_number = Finite int | NaN | PosInfinity | NegInfinity

text \<open>
  \<open>x + 1\<close> on such a double. A double has 53 significant bits. From -2^53 up to
  below 2^53 (9007199254740992) the sum is exact. From there up to below
  2^54 (18014398509481984) in magnitude the doubles are the even numbers, the
  exact sum lies half way between two of them, and the one with the even significand
  is taken, which is the multiple of 4. Beyond, the doubles are 4 or more apart and the
  sum is rounded back to \<open>x\<close>. \<open>NaN\<close> and the infinities are unchanged.
\<close>

definition js_add_one :: "js_number \<Rightarrow> js_number" where
  "js_add_one x =
     (case x of
        Finite n \<Rightarrow>
          if - 9007199254740992 \<le> n \<and> n < 9007199254740992 then Finite (n + 1)
          else if - 18014398509481984 \<le> n \<and> n < 18014398509481984 then
            (if n mod 4 = 0 then Finite n else Finite (n + 2))
          else Finite n
      | NaN \<Rightarrow> NaN
      | PosInfinity \<Rightarrow> PosInfinity
      | NegInfinity \<Rightarrow> NegInfinity)"

text \<open>The state variables of the \<open>App\<close> component.\<close>

record app_state =
  videos :: "video list"
  playingVideo :: "video option"
  editingVideo :: "video option"
  isSaving :: bool
  generationError :: "string list option"
  promptInput :: string
  generatedVideosCount :: js_number
  theme :: theme




section \<open>Properties of a trace\<close>

text \<open>
  \<open>polled_before_next_check es\<close>: a status re-fetch occurs in \<open>es\<close> before the loop
  condition is evaluated again. \<open>every_incomplete_polled es\<close>: that holds after each
  observation of an operation that is not done.
\<close>

fun polled_before_next_check :: "event list \<Rightarrow> bool" where
  "polled_before_next_check [] = False"
| "polled_before_next_check (GetVideosOperation operation # es) = True"
| "polled_before_next_check (CheckDone b # es) = False"
| "polled_before_next_check (e # es) = polled_before_next_check es"

fun every_incomplete_polled :: "event list \<Rightarrow> bool" where
  "every_incomplete_polled [] = True"
| "every_incomplete_polled (CheckDone b # es) =
     ((b \<or> polled_before_next_check es) \<and> every_incomplete_polled es)"
| "every_incomplete_polled (e # es) = every_incomplete_polled es"

text \<open>
  \<open>loop_event e\<close>: \<open>e\<close> is a step of the polling loop. \<open>stops_at_done es\<close>: nothing
  of the loop follows the first observation of a done operation: no further check, wait
  or message. \<open>no_poll_after_done es\<close>: no status re-fetch follows it.
\<close>

fun loop_event :: "event \<Rightarrow> bool" where
  "loop_event (CheckDone b) = True"
| "loop_event (SetTimeout d) = True"
| "loop_event (GetVideosOperation operation) = True"
| "loop_event (ConsoleLog l) = (l = [''...Generating...''])"
| "loop_event e = False"

fun is_poll :: "event \<Rightarrow> bool" where
  "is_poll (GetVideosOperation operation) = True"
| "is_poll e = False"

fun stops_at_done :: "event list \<Rightarrow> bool" where
  "stops_at_done [] = True"
| "stops_at_done (CheckDone True # es) = (filter loop_event es = [])"
| "stops_at_done (e # es) = stops_at_done es"

fun no_poll_after_done :: "event list \<Rightarrow> bool" where
  "no_poll_after_done [] = True"
| "no_poll_after_done (CheckDone True # es) = (filter is_poll es = [])"
| "no_poll_after_done (e # es) = no_poll_after_done es"

text \<open>The requests a trace submits, and the operations it polls.\<close>

fun submitted :: "event list \<Rightarrow> request list" where
  "submitted [] = []"
| "submitted (GenerateVideos req # es) = req # submitted es"
| "submitted (e # es) = submitted es"

fun polled :: "event list \<Rightarrow> operation list" where
  "polled [] = []"
| "polled (GetVideosOperation operation # es) = operation # polled es"
| "polled (e # es) = polled es"

section \<open>Sample environments\<close>

text \<open>
  A backend whose state counts the status re-fetches it has answered. A submitted job
  comes back with no \<open>done\<close> field, the first re-fetch reports \<open>done = false\<close>, the
  second one \<open>done = true\<close> with the given response. Media are served by the given
  function, and their promises settle in the order of their indices. The payload of a
  medium is its text in base 64. The URIs of the samples hold no escape sequence, and
  \<open>decodeURIComponent\<close> leaves such a URI unchanged.
\<close>

definition sample_env ::
  "videos_response option \<Rightarrow> (string \<Rightarrow> string http_response result)
     \<Rightarrow> (nat, string) environment" where
  "sample_env final_response serve =
     \<lparr>generateVideos =
        (\<lambda>w req. (Inr \<lparr>op_name = ''op'', op_done = None, op_response = None\<rparr>, w)),
      getVideosOperation =
        (\<lambda>w operation.
           if w = 0 then (Inr (operation\<lparr>op_done := Some False\<rparr>), 1)
           else (Inr (operation\<lparr>op_done := Some True, op_response := final_response\<rparr>),
                 w + 1)),
      fetch = (\<lambda>w url. serve url),
      decodeURIComponent = (\<lambda>s. Inr s),
      readAsDataURL = (\<lambda>b. ''data:video/mp4;base64,'' @ b),
      API_KEY = Some ''K'',
      settled_at = (\<lambda>i. i),
      randomUUID = (\<lambda>w. (Inr ''id-1'', w))\<rparr>"

definition two_videos :: "videos_response option" where
  "two_videos = Some \<lparr>generatedVideos = Some [\<lparr>uri = ''m/a''\<rparr>, \<lparr>uri = ''m/b''\<rparr>]\<rparr>"

definition no_videos :: "videos_response option" where
  "no_videos = Some \<lparr>generatedVideos = Some []\<rparr>"

definition serve_all :: "string \<Rightarrow> string http_response result" where
  "serve_all url =
     Inr \<lparr>ok = True, status = 200, statusText = ''OK'',
          blob = Inr (if url = ''m/a&key=K'' then ''QQ=='' else ''Qg=='')\<rparr>"

definition forbid_b :: "string \<Rightarrow> string http_response result" where
  "forbid_b url =
     (if url = ''m/b&key=K''
      then Inr \<lparr>ok = False, status = 403, statusText = ''Forbidden'', blob = Inr []\<rparr>
      else serve_all url)"

text \<open>
  The first medium cannot be reached, so that \<open>fetch\<close> itself throws (a
  \<open>TypeError\<close>, as on a network failure); the second is refused.
\<close>

definition lose_a_forbid_b :: "string \<Rightarrow> string http_response result" where
  "lose_a_forbid_b url =
     (if url = ''m/a&key=K'' then Inl (JsError (JsString ''Failed to fetch'')) else forbid_b url)"

text \<open>The first medium is refused, and the second cannot be reached.\<close>

definition forbid_a_lose_b :: "string \<Rightarrow> string http_response result" where
  "forbid_a_lose_b url =
     (if url = ''m/a&key=K''
      then Inr \<lparr>ok = False, status = 403, statusText = ''Forbidden'', blob = Inr []\<rparr>
      else Inl (JsError (JsString ''Failed to fetch'')))"



section \<open>Facts about strings\<close>

lemma starts_with_prefix: "starts_with s p = prefix p s"
  by (induction s p rule: starts_with.induct) auto

lemma str_includes_sublist: "str_includes s p = sublist p s"
proof (induction s)
  case Nil
  show ?case by simp
next
  case (Cons c cs)
  show ?case
    by (simp add: Cons.IH starts_with_prefix sublist_Cons_right)
qed

lemma str_includes_map: "str_includes m q \<Longrightarrow> str_includes (map f m) (map f q)"
  unfolding str_includes_sublist sublist_def by (metis map_append)

lemma str_includes_same_length: "str_includes m q \<Longrightarrow> length m = length q \<Longrightarrow> m = q"
  unfolding str_includes_sublist sublist_def by auto

lemma lower_patterns:
  "map to_lower ''API key not valid'' = ''api key not valid''"
  "map to_lower ''permission denied'' = ''permission denied''"
  "map to_lower ''User location is not supported'' = ''user location is not supported''"
  "map to_lower ''Billing account not found'' = ''billing account not found''"
  by (simp_all add: to_lower_def)

lemma lower_patterns_apart:
  "\<not> str_includes ''api key not valid'' ''permission denied''"
  "\<not> str_includes ''api key not valid'' ''user location is not supported''"
  "\<not> str_includes ''api key not valid'' ''billing account not found''"
  "\<not> str_includes ''permission denied'' ''api key not valid''"
  "\<not> str_includes ''permission denied'' ''user location is not supported''"
  "\<not> str_includes ''permission denied'' ''billing account not found''"
  "\<not> str_includes ''user location is not supported'' ''api key not valid''"
  "\<not> str_includes ''user location is not supported'' ''permission denied''"
  "\<not> str_includes ''user location is not supported'' ''billing account not found''"
  "\<not> str_includes ''billing account not found'' ''api key not valid''"
  "\<not> str_includes ''billing account not found'' ''permission denied''"
  "\<not> str_includes ''billing account not found'' ''user location is not supported''"
  by simp_all

text \<open>No pattern occurs in another one, whatever the letter case.\<close>

lemma patterns_apart:
  assumes "p \<in> set patterns" "q \<in> set patterns"
    and "str_includes (map to_lower p) (map to_lower q)"
  shows "p = q"
proof -
  from assms(1) have P: "p = ''API key not valid'' \<or> p = ''permission denied''
    \<or> p = ''User location is not supported'' \<or> p = ''Billing account not found''"
    by (simp add: patterns_def)
  from assms(2) have Q: "q = ''API key not valid'' \<or> q = ''permission denied''
    \<or> q = ''User location is not supported'' \<or> q = ''Billing account not found''"
    by (simp add: patterns_def)
  show ?thesis
    using P Q assms(3)
    by (elim disjE; hypsubst; simp only: lower_patterns lower_patterns_apart)
qed

section \<open>The classifier: the pattern table\<close>

text \<open>
  Claim C5, as the specification words it: a message that contains
  "Billing account not found" and none of the three earlier patterns is classified as
  "Billing Issue." with the detail "A valid billing account is required. Please select
  a project with billing enabled." The code's detail line reads "a Cloud Project", so
  the claim fails already at the message that is the pattern itself.
\<close>

theorem billing_detail_counterexample:
  "str_includes ''Billing account not found'' ''Billing account not found''
   \<and> \<not> str_includes ''Billing account not found'' ''API key not valid''
   \<and> \<not> str_includes ''Billing account not found'' ''permission denied''
   \<and> \<not> str_includes ''Billing account not found'' ''User location is not supported''
   \<and> parseErrorMessage (JsError (JsString ''Billing account not found'')) \<noteq>
       Inr [''Billing Issue.'',
        ''A valid billing account is required. Please select a project with billing enabled.'']"
  by (simp add: parseErrorMessage_def)

text \<open>
  Claim C5, amended: for every error whose message contains
  "Billing account not found" and none of the three earlier patterns, the classifier
  returns exactly the two lines "Billing Issue." and "A valid billing account is
  required. Please select a Cloud Project with billing enabled."
\<close>

theorem billing_account_classified:
  assumes "str_includes m ''Billing account not found''"
    and "\<not> str_includes m ''API key not valid''"
    and "\<not> str_includes m ''permission denied''"
    and "\<not> str_includes m ''User location is not supported''"
  shows "parseErrorMessage (JsError (JsString m)) =
           Inr [''Billing Issue.'',
            ''A valid billing account is required. Please select a Cloud Project with billing enabled.'']"
  using assms by (simp add: parseErrorMessage_def)

theorem billing_account_classified_witness:
  "parseErrorMessage (JsError (JsString ''400 Billing account not found.'')) =
     Inr [''Billing Issue.'',
      ''A valid billing account is required. Please select a Cloud Project with billing enabled.'']"
proof -
  have a: "str_includes ''400 Billing account not found.'' ''Billing account not found''"
    by simp
  have b: "\<not> str_includes ''400 Billing account not found.'' ''API key not valid''"
    by simp
  have c: "\<not> str_includes ''400 Billing account not found.'' ''permission denied''"
    by simp
  have d: "\<not> str_includes ''400 Billing account not found.'' ''User location is not supported''"
    by simp
  show ?thesis
    by (rule billing_account_classified [OF a b c d])
qed

text \<open>
  Claim C6: for every error whose message contains "permission denied", in this very
  letter case, and does not contain the earlier pattern "API key not valid", the
  classifier returns exactly the two lines "Permission Denied." and "This model may
  require a specific tier or project configuration. Please check your project settings."
\<close>

theorem permission_denied_classified:
  assumes "str_includes m ''permission denied''"
    and "\<not> str_includes m ''API key not valid''"
  shows "parseErrorMessage (JsError (JsString m)) =
           Inr [''Permission Denied.'',
            ''This model may require a specific tier or project configuration. Please check your project settings.'']"
  using assms by (simp add: parseErrorMessage_def)

theorem permission_denied_classified_witness:
  "parseErrorMessage (JsError (JsString ''403: permission denied for model'')) =
     Inr [''Permission Denied.'',
      ''This model may require a specific tier or project configuration. Please check your project settings.'']"
proof -
  have a: "str_includes ''403: permission denied for model'' ''permission denied''"
    by simp
  have b: "\<not> str_includes ''403: permission denied for model'' ''API key not valid''"
    by simp
  show ?thesis
    by (rule permission_denied_classified [OF a b])
qed

text \<open>
  Claim C7: an error whose message matches none of the four patterns is classified as
  "Video generation failed:" followed by the message itself, unchanged; for the
  message "boom" the result is "Video generation failed:", "boom".
\<close>

theorem unmatched_message_passed_on:
  assumes "\<not> str_includes m ''API key not valid''"
    and "\<not> str_includes m ''permission denied''"
    and "\<not> str_includes m ''User location is not supported''"
    and "\<not> str_includes m ''Billing account not found''"
  shows "parseErrorMessage (JsError (JsString m)) = Inr [''Video generation failed:'', m]"
  using assms by (simp add: parseErrorMessage_def)

theorem unmatched_message_passed_on_witness:
  "parseErrorMessage (JsError (JsString ''boom'')) = Inr [''Video generation failed:'', ''boom'']"
proof -
  have a: "\<not> str_includes ''boom'' ''API key not valid''" by simp
  have b: "\<not> str_includes ''boom'' ''permission denied''" by simp
  have c: "\<not> str_includes ''boom'' ''User location is not supported''" by simp
  have d: "\<not> str_includes ''boom'' ''Billing account not found''" by simp
  show ?thesis
    by (rule unmatched_message_passed_on [OF a b c d])
qed




text \<open>
  Claim C9: all four patterns are matched with their letter case. A message that is
  one of the patterns up to letter case, and not the pattern itself, is classified as
  "Video generation failed:" followed by the message, not by the two lines of the
  pattern.
\<close>

theorem patterns_case_sensitive:
  assumes "p \<in> set patterns"
    and "same_ignoring_case m p"
    and "m \<noteq> p"
  shows "parseErrorMessage (JsError (JsString m)) = Inr [''Video generation failed:'', m]"
proof -
  have len: "length m = length p"
    using assms(2) unfolding same_ignoring_case_def by (metis length_map)
  have no: "\<not> str_includes m q" if q: "q \<in> set patterns" for q
  proof
    assume inc: "str_includes m q"
    have "str_includes (map to_lower p) (map to_lower q)"
      using str_includes_map [OF inc, of to_lower] assms(2)
      by (simp add: same_ignoring_case_def)
    then have "p = q"
      by (rule patterns_apart [OF assms(1) q])
    with inc len assms(3) show False
      using str_includes_same_length by blast
  qed
  have "\<not> str_includes m ''API key not valid''"
    and "\<not> str_includes m ''permission denied''"
    and "\<not> str_includes m ''User location is not supported''"
    and "\<not> str_includes m ''Billing account not found''"
    by (rule no, simp add: patterns_def)+
  then show ?thesis
    by (simp add: parseErrorMessage_def)
qed

theorem patterns_case_sensitive_witness:
  "parseErrorMessage (JsError (JsString ''API KEY NOT VALID'')) =
     Inr [''Video generation failed:'', ''API KEY NOT VALID'']
   \<and> parseErrorMessage (JsError (JsString ''billing account not found'')) =
     Inr [''Video generation failed:'', ''billing account not found'']"
proof -
  have a: "''API key not valid'' \<in> set patterns"
    by (simp add: patterns_def)
  have b: "same_ignoring_case ''API KEY NOT VALID'' ''API key not valid''"
    by (simp add: same_ignoring_case_def to_lower_def)
  have c: "''API KEY NOT VALID'' \<noteq> ''API key not valid''"
    by simp
  have a': "''Billing account not found'' \<in> set patterns"
    by (simp add: patterns_def)
  have b': "same_ignoring_case ''billing account not found'' ''Billing account not found''"
    by (simp add: same_ignoring_case_def to_lower_def)
  have c': "''billing account not found'' \<noteq> ''Billing account not found''"
    by simp
  show ?thesis
    using patterns_case_sensitive [OF a b c] patterns_case_sensitive [OF a' b' c']
    by (rule conjI)
qed

section \<open>Facts about promises\<close>

lemma rejections_Nil_iff: "rejections i rs = [] \<longleftrightarrow> rs = map Inr (fulfilments rs)"
  by (induction rs arbitrary: i) (auto split: sum.splits)

lemma fulfilments_map_Inr: "fulfilments (map Inr vs) = vs"
  by (induction vs) auto

lemma rejections_map_Inr: "rejections i (map Inr vs) = []"
  by (induction vs arbitrary: i) auto

text \<open>\<open>Promise.all\<close> is fulfilled exactly when every promise is, with their values in order.\<close>

lemma promise_all_Inr_iff: "promise_all t rs = Inr vs \<longleftrightarrow> rs = map Inr vs"
proof
  assume "promise_all t rs = Inr vs"
  then have "rejections 0 rs = []" and "fulfilments rs = vs"
    by (auto simp: promise_all_def split: list.splits)
  then show "rs = map Inr vs"
    using rejections_Nil_iff by metis
next
  assume "rs = map Inr vs"
  then show "promise_all t rs = Inr vs"
    by (simp add: promise_all_def rejections_map_Inr fulfilments_map_Inr)
qed

lemma rejections_mem:
  "(j, e) \<in> set (rejections k rs) \<longleftrightarrow> k \<le> j \<and> j - k < length rs \<and> rs ! (j - k) = Inl e"
proof (induction rs arbitrary: k)
  case Nil
  show ?case by simp
next
  case (Cons r rs)
  show ?case
  proof (cases "j = k")
    case True
    then show ?thesis
      using Cons.IH [of "Suc k"] by (cases r) auto
  next
    case False
    then have "(j - k) = Suc (j - Suc k)" if "k \<le> j"
      using that by simp
    then show ?thesis
      using False Cons.IH [of "Suc k"] by (cases r) (auto simp: Suc_le_eq)
  qed
qed

lemma earliest_mem: "earliest t c cs \<in> set (c # cs)"
  by (induction cs arbitrary: c) (simp, force)

lemma earliest_unique_min:
  assumes "x \<in> set (c # cs)"
    and "\<forall>y \<in> set (c # cs). y \<noteq> x \<longrightarrow> t (fst x) < t (fst y)"
  shows "earliest t c cs = x"
  using assms
proof (induction cs arbitrary: c)
  case Nil
  then show ?case by simp
next
  case (Cons d cs)
  let ?b = "if t (fst d) < t (fst c) then d else c"
  have "x \<in> set (?b # cs)"
    using Cons.prems by (auto dest: order.asym)
  moreover have "\<forall>y \<in> set (?b # cs). y \<noteq> x \<longrightarrow> t (fst x) < t (fst y)"
    using Cons.prems(2) by auto
  ultimately have "earliest t ?b cs = x"
    by (rule Cons.IH)
  then show ?case by simp
qed

lemma rejections_sorted: "sorted_wrt (\<lambda>a b. fst a < fst b) (rejections k rs)"
proof (induction rs arbitrary: k)
  case Nil
  show ?case by simp
next
  case (Cons r rs)
  have "k < fst y" if "y \<in> set (rejections (Suc k) rs)" for y
  proof -
    obtain j e where "y = (j, e)" by (cases y)
    with that show ?thesis by (simp add: rejections_mem)
  qed
  with Cons.IH [of "Suc k"] show ?case
    by (cases r) auto
qed

text \<open>The reason chosen is one with the least time of rejection, and the first such.\<close>

lemma earliest_le: "\<forall>y \<in> set (c # cs). t (fst (earliest t c cs)) \<le> t (fst y)"
proof (induction cs arbitrary: c)
  case Nil
  show ?case by simp
next
  case (Cons d cs)
  let ?b = "if t (fst d) < t (fst c) then d else c"
  have "\<forall>y \<in> set (?b # cs). t (fst (earliest t ?b cs)) \<le> t (fst y)"
    by (rule Cons.IH)
  then show ?case
    by (auto split: if_splits)
qed

lemma earliest_before:
  assumes "sorted_wrt (\<lambda>a b. fst a < fst b) (c # cs)"
  shows "\<forall>y \<in> set (c # cs). fst y < fst (earliest t c cs)
            \<longrightarrow> t (fst (earliest t c cs)) < t (fst y)"
  using assms
proof (induction cs arbitrary: c)
  case Nil
  show ?case by simp
next
  case (Cons d cs)
  let ?b = "if t (fst d) < t (fst c) then d else c"
  let ?x = "earliest t ?b cs"
  have cd: "fst c < fst d" and above: "\<forall>y \<in> set cs. fst c < fst y \<and> fst d < fst y"
    using Cons.prems by auto
  have sorted: "sorted_wrt (\<lambda>a b. fst a < fst b) (?b # cs)"
    using Cons.prems by auto
  have ih: "\<forall>y \<in> set (?b # cs). fst y < fst ?x \<longrightarrow> t (fst ?x) < t (fst y)"
    by (rule Cons.IH [OF sorted])
  have le: "\<forall>y \<in> set (?b # cs). t (fst ?x) \<le> t (fst y)"
    by (rule earliest_le)
  have "fst y < fst ?x \<longrightarrow> t (fst ?x) < t (fst y)" if y: "y \<in> set (c # d # cs)" for y
  proof (cases "y \<in> set (?b # cs)")
    case True
    with ih show ?thesis by blast
  next
    case False
    show ?thesis
    proof (cases "t (fst d) < t (fst c)")
      case True
      with False y have "y = c" by auto
      moreover from le True have "t (fst ?x) \<le> t (fst d)" by simp
      ultimately show ?thesis using True by simp
    next
      case less: False
      with False y have yd: "y = d" by auto
      show ?thesis
      proof
        assume "fst y < fst ?x"
        with yd cd have "fst c < fst ?x" by simp
        with ih less have "t (fst ?x) < t (fst c)" by simp
        with less yd show "t (fst ?x) < t (fst y)" by simp
      qed
    qed
  qed
  then show ?case by simp
qed

text \<open>
  One rejected promise rejects the whole, with the reason of the promise that was
  rejected first: no rejected promise has an earlier time, and none of a smaller index
  has the same time.
\<close>

lemma promise_all_rejected:
  assumes "i < length rs" and "rs ! i = Inl e"
  shows "\<exists>e' j. promise_all t rs = Inl e' \<and> j < length rs \<and> rs ! j = Inl e'
           \<and> (\<forall>k < length rs. (\<exists>e''. rs ! k = Inl e'')
                  \<longrightarrow> t j \<le> t k \<and> (k < j \<longrightarrow> t j < t k))"
proof -
  have "(i, e) \<in> set (rejections 0 rs)"
    using assms by (simp add: rejections_mem)
  then obtain c cs where rj: "rejections 0 rs = c # cs"
    by (cases "rejections 0 rs") auto
  obtain j e' where je: "earliest t c cs = (j, e')"
    by (cases "earliest t c cs")
  have "earliest t c cs \<in> set (rejections 0 rs)"
    unfolding rj by (rule earliest_mem)
  then have "(j, e') \<in> set (rejections 0 rs)"
    by (simp only: je)
  then have j: "j < length rs" "rs ! j = Inl e'"
    by (simp_all add: rejections_mem)
  have pa: "promise_all t rs = Inl e'"
    by (simp add: promise_all_def rj je)
  have sorted: "sorted_wrt (\<lambda>a b. fst a < fst b) (c # cs)"
    using rejections_sorted [of 0 rs] by (simp only: rj)
  have "t j \<le> t k \<and> (k < j \<longrightarrow> t j < t k)"
    if k: "k < length rs" and rk: "rs ! k = Inl e''" for k e''
  proof -
    have mem: "(k, e'') \<in> set (c # cs)"
      using k rk rejections_mem [of k e'' 0 rs] by (simp add: rj)
    from earliest_le [of c cs t] mem have "t j \<le> t k"
      by (auto simp: je)
    moreover from earliest_before [OF sorted, of t] mem have "k < j \<longrightarrow> t j < t k"
      by (auto simp: je)
    ultimately show ?thesis by simp
  qed
  with pa j show ?thesis by blast
qed

text \<open>The reason is that of the promise rejected before every other rejected one.\<close>

lemma promise_all_first:
  assumes "i < length rs" and "rs ! i = Inl e"
    and "\<forall>j < length rs. j \<noteq> i \<longrightarrow> (\<exists>e'. rs ! j = Inl e') \<longrightarrow> t i < t j"
  shows "promise_all t rs = Inl e"
proof -
  have mem: "(i, e) \<in> set (rejections 0 rs)"
    using assms by (simp add: rejections_mem)
  then obtain c cs where rj: "rejections 0 rs = c # cs"
    by (cases "rejections 0 rs") auto
  have "\<forall>y \<in> set (c # cs). y \<noteq> (i, e) \<longrightarrow> t (fst (i, e)) < t (fst y)"
  proof (intro ballI impI)
    fix y assume y: "y \<in> set (c # cs)" and ne: "y \<noteq> (i, e)"
    obtain j e' where [simp]: "y = (j, e')" by (cases y)
    from y have "(j, e') \<in> set (rejections 0 rs)"
      unfolding rj by simp
    then have j: "j < length rs" "rs ! j = Inl e'"
      by (simp_all add: rejections_mem)
    with ne assms(2) have "j \<noteq> i" by auto
    with j assms(3) show "t (fst (i, e)) < t (fst y)" by auto
  qed
  moreover have "(i, e) \<in> set (c # cs)"
    using mem unfolding rj .
  ultimately have "earliest t c cs = (i, e)"
    by (intro earliest_unique_min)
  then show ?thesis
    by (simp add: promise_all_def rj)
qed

section \<open>Facts about the workflow\<close>

text \<open>A loop that has ended ends the same way when it is allowed more rounds.\<close>

lemma poll_loop_more_fuel:
  "poll_loop n env w operation = (Some r, w', tr) \<Longrightarrow>
   poll_loop (n + k) env w operation = (Some r, w', tr)"
proof (induction n arbitrary: w operation tr)
  case 0
  then show ?case by simp
next
  case (Suc n)
  show ?case
  proof (cases "op_done operation \<noteq> Some True")
    case False
    with Suc.prems show ?thesis by simp
  next
    case True
    obtain x w1 where g: "getVideosOperation env w operation = (x, w1)"
      by (cases "getVideosOperation env w operation")
    show ?thesis
    proof (cases x)
      case (Inl e)
      with Suc.prems True g show ?thesis by auto
    next
      case (Inr operation')
      obtain r2 w2 tr2 where p: "poll_loop n env w1 operation' = (r2, w2, tr2)"
        by (cases "poll_loop n env w1 operation'")
      with Suc.prems True g Inr have "r2 = Some r" "w2 = w'" "tr = poll_round operation @ tr2"
        by simp_all
      with p Suc.IH have "poll_loop (n + k) env w1 operation' = (Some r, w', tr2)"
        by simp
      with True g Inr \<open>tr = poll_round operation @ tr2\<close> show ?thesis by simp
    qed
  qed
qed

text \<open>The run once the job has been submitted and the loop has ended at an operation.\<close>

lemma generate_after_completion:
  assumes "generateVideos env w
            \<lparr>model = VEO_MODEL_NAME, prompt = p,
             numberOfVideos = (case count of None \<Rightarrow> 1 | Some c \<Rightarrow> c),
             aspectRatio = ''16:9''\<rparr> = (Inr operation, w1)"
    and "poll_loop fuel env w1 operation = (Some (Inr finished), w2, tr)"
  shows "fst (generateVideoFromText fuel env w p count) = Some (fst (collect env w2 finished))"
  using assms
  by (cases "collect env w2 finished") (simp add: generateVideoFromText_def Let_def)

lemma collect_references:
  assumes "op_response finished = Some response"
    and "generatedVideos response = Some refs"
    and "refs \<noteq> []"
  shows "fst (collect env w finished) =
           promise_all (settled_at env) (map (download env w) refs)"
  using assms by (simp add: collect_def)

text \<open>A run succeeds when the job completes with references that can all be downloaded.\<close>

lemma generate_succeeds:
  assumes "generateVideos env w
            \<lparr>model = VEO_MODEL_NAME, prompt = p,
             numberOfVideos = (case count of None \<Rightarrow> 1 | Some c \<Rightarrow> c),
             aspectRatio = ''16:9''\<rparr> = (Inr operation, w1)"
    and "poll_loop fuel env w1 operation = (Some (Inr finished), w2, tr)"
    and "op_response finished = Some response"
    and "generatedVideos response = Some refs"
    and "refs \<noteq> []"
    and "map (download env w2) refs = map Inr media"
  shows "fst (generateVideoFromText (fuel + k) env w p count) = Some (Inr media)"
proof -
  have "poll_loop (fuel + k) env w1 operation = (Some (Inr finished), w2, tr)"
    using assms(2) by (rule poll_loop_more_fuel)
  with assms(1)
  have "fst (generateVideoFromText (fuel + k) env w p count) =
          Some (fst (collect env w2 finished))"
    by (rule generate_after_completion)
  also have "fst (collect env w2 finished) = Inr media"
    using assms(3-6) by (simp add: collect_references promise_all_Inr_iff)
  finally show ?thesis .
qed

section \<open>Facts about traces\<close>

lemma polled_append: "polled (xs @ ys) = polled xs @ polled ys"
  by (induction xs rule: polled.induct) simp_all

lemma submitted_append: "submitted (xs @ ys) = submitted xs @ submitted ys"
  by (induction xs rule: submitted.induct) simp_all

lemma quiet_every_incomplete_polled:
  "filter loop_event es = [] \<Longrightarrow> every_incomplete_polled es"
  by (induction es rule: every_incomplete_polled.induct) (simp_all split: if_splits)

lemma quiet_no_poll: "filter loop_event es = [] \<Longrightarrow> filter is_poll es = []"
proof (induction es)
  case Nil
  show ?case by simp
next
  case (Cons e es)
  then show ?case by (cases e) (simp_all split: if_splits)
qed

lemma quiet_stops_at_done: "filter loop_event es = [] \<Longrightarrow> stops_at_done es"
  by (induction es rule: stops_at_done.induct) (simp_all split: if_splits)

lemma quiet_no_poll_after_done: "filter loop_event es = [] \<Longrightarrow> no_poll_after_done es"
  by (induction es rule: no_poll_after_done.induct) (simp_all split: if_splits)

lemma quiet_polled: "filter loop_event es = [] \<Longrightarrow> polled es = []"
  by (induction es rule: polled.induct) (simp_all split: if_splits)

lemma quiet_submitted_fetches:
  "submitted (concat (map (download_events env) vs)) = []"
  by (induction vs) (simp_all add: submitted_append download_events_def split: sum.splits)

lemma quiet_fetches: "filter loop_event (concat (map (download_events env) vs)) = []"
  by (induction vs) (simp_all add: download_events_def split: sum.splits)

lemma collect_quiet: "filter loop_event (snd (collect env w operation)) = []"
  by (simp add: collect_def quiet_fetches split: option.splits)

lemma collect_submitted: "submitted (snd (collect env w operation)) = []"
  by (simp add: collect_def quiet_submitted_fetches split: option.splits)

lemma poll_round_props:
  "every_incomplete_polled (poll_round operation @ es) = every_incomplete_polled es"
  "stops_at_done (poll_round operation @ es) = stops_at_done es"
  "no_poll_after_done (poll_round operation @ es) = no_poll_after_done es"
  "polled (poll_round operation @ es) = operation # polled es"
  "submitted (poll_round operation @ es) = submitted es"
  by (simp_all add: poll_round_def)

text \<open>
  The trace of the loop, followed by any events that are not the loop's, keeps the
  polling discipline, whether the loop ended, threw or is still running.
\<close>

lemma poll_loop_trace:
  assumes "poll_loop n env w operation = (r, w', tr)"
    and "filter loop_event sfx = []"
  shows "every_incomplete_polled (tr @ sfx) \<and> stops_at_done (tr @ sfx)
         \<and> no_poll_after_done (tr @ sfx)
         \<and> (\<forall>polled_op \<in> set (polled (tr @ sfx)). op_done polled_op \<noteq> Some True)
         \<and> submitted tr = []"
  using assms
proof (induction n arbitrary: w operation r w' tr)
  case 0
  then have "tr = []" by simp
  with "0.prems"(2) show ?case
    by (simp add: quiet_every_incomplete_polled quiet_polled quiet_stops_at_done
          quiet_no_poll_after_done)
next
  case (Suc n)
  show ?case
  proof (cases "op_done operation \<noteq> Some True")
    case False
    with Suc.prems(1) have "tr = [CheckDone True]" by simp
    with Suc.prems(2) show ?thesis
      by (simp add: quiet_every_incomplete_polled quiet_polled quiet_no_poll)
  next
    case True
    obtain x w1 where g: "getVideosOperation env w operation = (x, w1)"
      by (cases "getVideosOperation env w operation")
    show ?thesis
    proof (cases x)
      case (Inl e)
      with Suc.prems(1) True g have "tr = poll_round operation" by auto
      with Suc.prems(2) True show ?thesis
        by (simp add: poll_round_props quiet_every_incomplete_polled quiet_polled
              quiet_stops_at_done quiet_no_poll_after_done
              poll_round_props [of operation "[]", simplified])
    next
      case (Inr operation')
      obtain r2 w2 tr2 where p: "poll_loop n env w1 operation' = (r2, w2, tr2)"
        by (cases "poll_loop n env w1 operation'")
      with Suc.prems(1) True g Inr have tr: "tr = poll_round operation @ tr2"
        by simp
      from Suc.IH [OF p Suc.prems(2)] True show ?thesis
        by (simp add: tr poll_round_props)
    qed
  qed
qed

text \<open>
  The loop ends at an operation exactly when it has seen one done: the observation is
  then the last event of the loop, the operation returned is the one seen, and it is
  done.
\<close>

lemma poll_round_not_done: "CheckDone True \<notin> set (poll_round operation)"
  by (simp add: poll_round_def)

lemma poll_loop_exit:
  assumes "poll_loop n env w operation = (r, w', tr)"
  shows "(CheckDone True \<in> set tr \<longrightarrow>
            (\<exists>finished tr0. r = Some (Inr finished) \<and> op_done finished = Some True
                \<and> tr = tr0 @ [CheckDone True] \<and> CheckDone True \<notin> set tr0))
         \<and> ((\<exists>finished. r = Some (Inr finished)) \<longrightarrow> CheckDone True \<in> set tr)"
  using assms
proof (induction n arbitrary: w operation r w' tr)
  case 0
  then show ?case by simp
next
  case (Suc n)
  show ?case
  proof (cases "op_done operation \<noteq> Some True")
    case False
    with Suc.prems have "r = Some (Inr operation)" "tr = [] @ [CheckDone True]"
      by simp_all
    with False show ?thesis by auto
  next
    case True
    obtain x w1 where g: "getVideosOperation env w operation = (x, w1)"
      by (cases "getVideosOperation env w operation")
    show ?thesis
    proof (cases x)
      case (Inl e)
      with Suc.prems True g have "tr = poll_round operation" "r = Some (Inl e)"
        by auto
      then show ?thesis by (simp add: poll_round_not_done)
    next
      case (Inr operation')
      obtain r2 w2 tr2 where p: "poll_loop n env w1 operation' = (r2, w2, tr2)"
        by (cases "poll_loop n env w1 operation'")
      with Suc.prems True g Inr have tr: "tr = poll_round operation @ tr2" and r: "r = r2"
        by simp_all
      from Suc.IH [OF p]
      have ih1: "CheckDone True \<in> set tr2 \<longrightarrow>
            (\<exists>finished tr0. r2 = Some (Inr finished) \<and> op_done finished = Some True
                \<and> tr2 = tr0 @ [CheckDone True] \<and> CheckDone True \<notin> set tr0)"
        and ih2: "(\<exists>finished. r2 = Some (Inr finished)) \<longrightarrow> CheckDone True \<in> set tr2"
        by simp_all
      have "\<exists>finished tr0. r = Some (Inr finished) \<and> op_done finished = Some True
                \<and> tr = tr0 @ [CheckDone True] \<and> CheckDone True \<notin> set tr0"
        if "CheckDone True \<in> set tr"
      proof -
        from that have "CheckDone True \<in> set tr2"
          by (simp add: tr poll_round_not_done)
        with ih1 obtain finished tr0 where
          f: "r2 = Some (Inr finished)" "op_done finished = Some True"
             "tr2 = tr0 @ [CheckDone True]" "CheckDone True \<notin> set tr0"
          by blast
        have "tr = (poll_round operation @ tr0) @ [CheckDone True]"
          by (simp add: tr f(3))
        moreover have "CheckDone True \<notin> set (poll_round operation @ tr0)"
          using f(4) by (simp add: poll_round_not_done)
        ultimately show ?thesis
          using f(1,2) r by blast
      qed
      moreover have "CheckDone True \<in> set tr" if "\<exists>finished. r = Some (Inr finished)"
        using that ih2 r tr by simp
      ultimately show ?thesis by blast
    qed
  qed
qed

lemma quiet_not_checked: "filter loop_event es = [] \<Longrightarrow> CheckDone b \<notin> set es"
  by (induction es) (auto split: if_splits)

text \<open>
  The trace of a run: the submission, the loop, and then only downloads. Once an
  operation has been seen done, the call goes on to collect the media of that very
  operation and settles.
\<close>

lemma generate_trace:
  "\<exists>tr. snd (snd (generateVideoFromText fuel env w p count)) =
          GenerateVideos \<lparr>model = VEO_MODEL_NAME, prompt = p,
             numberOfVideos = (case count of None \<Rightarrow> 1 | Some c \<Rightarrow> c),
             aspectRatio = ''16:9''\<rparr> # tr
        \<and> every_incomplete_polled tr \<and> stops_at_done tr \<and> no_poll_after_done tr
        \<and> (\<forall>polled_op \<in> set (polled tr). op_done polled_op \<noteq> Some True)
        \<and> submitted tr = []
        \<and> (CheckDone True \<in> set tr \<longrightarrow>
             (\<exists>finished w2 tr0.
                op_done finished = Some True
                \<and> generateVideoFromText fuel env w p count =
                    (Some (fst (collect env w2 finished)), w2,
                     GenerateVideos \<lparr>model = VEO_MODEL_NAME, prompt = p,
                        numberOfVideos = (case count of None \<Rightarrow> 1 | Some c \<Rightarrow> c),
                        aspectRatio = ''16:9''\<rparr>
                     # tr0 @ CheckDone True # snd (collect env w2 finished))
                \<and> CheckDone True \<notin> set tr0))"
proof -
  define req where "req = \<lparr>model = VEO_MODEL_NAME, prompt = p,
             numberOfVideos = (case count of None \<Rightarrow> 1 | Some c \<Rightarrow> c),
             aspectRatio = ''16:9''\<rparr>"
  obtain x w1 where sub: "generateVideos env w req = (x, w1)"
    by (cases "generateVideos env w req")
  show ?thesis
  proof (cases x)
    case (Inl e)
    with sub have "snd (snd (generateVideoFromText fuel env w p count)) = GenerateVideos req # []"
      by (simp add: generateVideoFromText_def Let_def req_def)
    then show ?thesis
      unfolding req_def by (intro exI [of _ "[]"]) simp
  next
    case (Inr operation)
    obtain r w2 tr where lp: "poll_loop fuel env w1 operation = (r, w2, tr)"
      by (cases "poll_loop fuel env w1 operation")
    show ?thesis
    proof (cases "\<exists>finished. r = Some (Inr finished)")
      case False
      then have "snd (snd (generateVideoFromText fuel env w p count)) = GenerateVideos req # tr"
        using sub Inr lp
        by (auto simp: generateVideoFromText_def Let_def req_def split: option.splits sum.splits)
      moreover have "CheckDone True \<notin> set tr"
        using poll_loop_exit [OF lp] False by blast
      ultimately show ?thesis
        using poll_loop_trace [OF lp, of "[]"]
        unfolding req_def by (intro exI [of _ tr]) simp
    next
      case True
      then obtain finished where r: "r = Some (Inr finished)" by blast
      obtain res tr' where c: "collect env w2 finished = (res, tr')"
        by (cases "collect env w2 finished")
      have q: "filter loop_event tr' = []"
        using collect_quiet [of env w2 finished] c by simp
      have s: "submitted tr' = []"
        using collect_submitted [of env w2 finished] c by simp
      from poll_loop_exit [OF lp] r obtain tr0 where
        ex: "op_done finished = Some True" "tr = tr0 @ [CheckDone True]"
            "CheckDone True \<notin> set tr0"
        by auto
      have run: "generateVideoFromText fuel env w p count =
                   (Some res, w2, GenerateVideos req # tr @ tr')"
        using sub Inr lp r c
        by (simp add: generateVideoFromText_def Let_def req_def)
      have "\<exists>finished w2 tr0.
                op_done finished = Some True
                \<and> generateVideoFromText fuel env w p count =
                    (Some (fst (collect env w2 finished)), w2,
                     GenerateVideos req # tr0 @ CheckDone True # snd (collect env w2 finished))
                \<and> CheckDone True \<notin> set tr0"
        using ex run c by (intro exI [of _ finished] exI [of _ w2] exI [of _ tr0]) simp
      moreover have "snd (snd (generateVideoFromText fuel env w p count)) =
                       GenerateVideos req # tr @ tr'"
        using run by simp
      ultimately show ?thesis
        using poll_loop_trace [OF lp q] s
        unfolding req_def by (intro exI [of _ "tr @ tr'"]) (simp add: submitted_append)
    qed
  qed
qed


section \<open>The sample environments, evaluated\<close>

lemma sample_submit:
  "generateVideos (sample_env final serve) w req =
     (Inr \<lparr>op_name = ''op'', op_done = None, op_response = None\<rparr>, w)"
  by (simp add: sample_env_def)

lemma sample_poll:
  "poll_loop 3 (sample_env final serve) 0
     \<lparr>op_name = ''op'', op_done = None, op_response = None\<rparr> =
   (Some (Inr \<lparr>op_name = ''op'', op_done = Some True, op_response = final\<rparr>), 2,
    poll_round \<lparr>op_name = ''op'', op_done = None, op_response = None\<rparr>
    @ poll_round \<lparr>op_name = ''op'', op_done = Some False, op_response = None\<rparr>
    @ [CheckDone True])"
  by (simp add: sample_env_def eval_nat_numeral)

lemma sample_downloads:
  "download (sample_env final serve_all) w \<lparr>uri = ''m/a''\<rparr> = Inr (Some ''QQ=='')"
  "download (sample_env final serve_all) w \<lparr>uri = ''m/b''\<rparr> = Inr (Some ''Qg=='')"
  "download (sample_env final forbid_b) w \<lparr>uri = ''m/a''\<rparr> = Inr (Some ''QQ=='')"
  "download (sample_env final forbid_b) w \<lparr>uri = ''m/b''\<rparr> =
     Inl (JsError (JsString ''Failed to fetch video: 403 Forbidden''))"
  "download (sample_env final lose_a_forbid_b) w \<lparr>uri = ''m/a''\<rparr> =
     Inl (JsError (JsString ''Failed to fetch''))"
  "download (sample_env final lose_a_forbid_b) w \<lparr>uri = ''m/b''\<rparr> =
     Inl (JsError (JsString ''Failed to fetch video: 403 Forbidden''))"
  "download (sample_env final forbid_a_lose_b) w \<lparr>uri = ''m/a''\<rparr> =
     Inl (JsError (JsString ''Failed to fetch video: 403 Forbidden''))"
  "download (sample_env final forbid_a_lose_b) w \<lparr>uri = ''m/b''\<rparr> =
     Inl (JsError (JsString ''Failed to fetch''))"
  by (simp_all add: download_def sample_env_def serve_all_def forbid_b_def
        lose_a_forbid_b_def forbid_a_lose_b_def media_url_def template_def bloblToBase64_def show_nat.simps)

lemma sample_download_events:
  "download_events (sample_env final serve) \<lparr>uri = ''m/a''\<rparr> = [Fetch ''m/a&key=K'']"
  "download_events (sample_env final serve) \<lparr>uri = ''m/b''\<rparr> = [Fetch ''m/b&key=K'']"
  by (simp_all add: download_events_def sample_env_def media_url_def template_def)

lemma sample_settled: "settled_at (sample_env final serve) = (\<lambda>i. i)"
  by (simp add: sample_env_def)

lemma sample_run_ok:
  "generateVideoFromText 3 (sample_env two_videos serve_all) 0 p count =
     (Some (Inr [Some ''QQ=='', Some ''Qg=='']), 2,
      GenerateVideos \<lparr>model = VEO_MODEL_NAME, prompt = p,
             numberOfVideos = (case count of None \<Rightarrow> 1 | Some c \<Rightarrow> c),
             aspectRatio = ''16:9''\<rparr>
      # poll_round \<lparr>op_name = ''op'', op_done = None, op_response = None\<rparr>
      @ poll_round \<lparr>op_name = ''op'', op_done = Some False, op_response = None\<rparr>
      @ [CheckDone True, Fetch ''m/a&key=K'', Fetch ''m/b&key=K''])"
  by (simp add: generateVideoFromText_def Let_def sample_submit sample_poll collect_def
        two_videos_def sample_downloads sample_download_events sample_settled promise_all_def)

lemma sample_run_lost:
  "fst (generateVideoFromText 3 (sample_env two_videos lose_a_forbid_b) 0 p count) =
     Some (Inl (JsError (JsString ''Failed to fetch'')))"
  by (simp add: generateVideoFromText_def Let_def sample_submit sample_poll collect_def
        two_videos_def sample_downloads sample_download_events sample_settled promise_all_def)

section \<open>The generation workflow: results\<close>

text \<open>
  Claim C1: for every prompt and count (so for every non-empty prompt and count of at
  least 1), when the job completes with a list of generated-media references, a
  successful run of \<open>generateVideoFromText\<close> returns exactly as many encoded media as
  there are references, in the order of the references: the entry at each position is
  the outcome of downloading the reference at that position.
\<close>

theorem one_entry_per_reference_in_order:
  assumes sub: "generateVideos env w
            \<lparr>model = VEO_MODEL_NAME, prompt = p,
             numberOfVideos = (case count of None \<Rightarrow> 1 | Some c \<Rightarrow> c),
             aspectRatio = ''16:9''\<rparr> = (Inr operation, w1)"
    and fin: "poll_loop fuel env w1 operation = (Some (Inr finished), w2, tr)"
    and resp: "op_response finished = Some response"
    and refs: "generatedVideos response = Some refs"
    and ok: "fst (generateVideoFromText fuel env w p count) = Some (Inr media)"
  shows "length media = length refs \<and> map Inr media = map (download env w2) refs"
proof -
  have "fst (collect env w2 finished) = Inr media"
    using generate_after_completion [OF sub fin] ok by simp
  then have "promise_all (settled_at env) (map (download env w2) refs) = Inr media"
    using resp refs by (simp add: collect_def split: if_splits)
  then have "map (download env w2) refs = map Inr media"
    by (simp add: promise_all_Inr_iff)
  then show ?thesis
    by (metis length_map)
qed

theorem one_entry_per_reference_in_order_witness:
  "fst (generateVideoFromText 3 (sample_env two_videos serve_all) 0 ''a cat'' (Some 2)) =
     Some (Inr [Some ''QQ=='', Some ''Qg==''])
   \<and> length [Some ''QQ=='', Some ''Qg==''] = length [\<lparr>uri = ''m/a''\<rparr>, \<lparr>uri = ''m/b''\<rparr>]
   \<and> map Inr [Some ''QQ=='', Some ''Qg==''] =
       map (download (sample_env two_videos serve_all) 2) [\<lparr>uri = ''m/a''\<rparr>, \<lparr>uri = ''m/b''\<rparr>]"
proof -
  let ?env = "sample_env two_videos serve_all"
  have sub: "generateVideos ?env 0
            \<lparr>model = VEO_MODEL_NAME, prompt = ''a cat'',
             numberOfVideos = (case Some 2 of None \<Rightarrow> 1 | Some c \<Rightarrow> c),
             aspectRatio = ''16:9''\<rparr> =
            (Inr \<lparr>op_name = ''op'', op_done = None, op_response = None\<rparr>, 0)"
    by (rule sample_submit)
  have resp: "op_response \<lparr>op_name = ''op'', op_done = Some True, op_response = two_videos\<rparr> =
            Some \<lparr>generatedVideos = Some [\<lparr>uri = ''m/a''\<rparr>, \<lparr>uri = ''m/b''\<rparr>]\<rparr>"
    by (simp add: two_videos_def)
  have refs: "generatedVideos \<lparr>generatedVideos = Some [\<lparr>uri = ''m/a''\<rparr>, \<lparr>uri = ''m/b''\<rparr>]\<rparr> =
            Some [\<lparr>uri = ''m/a''\<rparr>, \<lparr>uri = ''m/b''\<rparr>]"
    by simp
  have ok: "fst (generateVideoFromText 3 ?env 0 ''a cat'' (Some 2)) =
            Some (Inr [Some ''QQ=='', Some ''Qg==''])"
    by (simp add: sample_run_ok)
  from one_entry_per_reference_in_order [OF sub sample_poll resp refs ok] ok show ?thesis
    by simp
qed

text \<open>
  Claim C2: when the job completes with no response, or with a response that lists no
  generated media (none at all, or an empty list), the call fails with an error whose
  message is "No videos generated", and returns no list; the classifier maps that error
  to the two lines "Video generation failed:", "No videos generated".
\<close>

theorem no_videos_generated_error:
  assumes sub: "generateVideos env w
            \<lparr>model = VEO_MODEL_NAME, prompt = p,
             numberOfVideos = (case count of None \<Rightarrow> 1 | Some c \<Rightarrow> c),
             aspectRatio = ''16:9''\<rparr> = (Inr operation, w1)"
    and fin: "poll_loop fuel env w1 operation = (Some (Inr finished), w2, tr)"
    and none: "op_response finished = None
               \<or> (\<exists>response. op_response finished = Some response
                    \<and> (generatedVideos response = None \<or> generatedVideos response = Some []))"
  shows "fst (generateVideoFromText fuel env w p count) =
           Some (Inl (JsError (JsString ''No videos generated'')))
         \<and> parseErrorMessage (JsError (JsString ''No videos generated'')) =
             Inr [''Video generation failed:'', ''No videos generated'']"
proof -
  have "fst (collect env w2 finished) = Inl (JsError (JsString ''No videos generated''))"
    using none by (auto simp: collect_def)
  then have "fst (generateVideoFromText fuel env w p count) =
               Some (Inl (JsError (JsString ''No videos generated'')))"
    using generate_after_completion [OF sub fin] by simp
  moreover have "parseErrorMessage (JsError (JsString ''No videos generated'')) =
             Inr [''Video generation failed:'', ''No videos generated'']"
    by (simp add: parseErrorMessage_def)
  ultimately show ?thesis by simp
qed

theorem no_videos_generated_error_witness:
  "fst (generateVideoFromText 3 (sample_env no_videos serve_all) 0 ''a cat'' None) =
     Some (Inl (JsError (JsString ''No videos generated'')))
   \<and> fst (generateVideoFromText 3 (sample_env None serve_all) 0 ''a cat'' None) =
     Some (Inl (JsError (JsString ''No videos generated'')))
   \<and> parseErrorMessage (JsError (JsString ''No videos generated'')) =
       Inr [''Video generation failed:'', ''No videos generated'']"
proof -
  have sub: "generateVideos (sample_env final serve_all) 0
            \<lparr>model = VEO_MODEL_NAME, prompt = ''a cat'',
             numberOfVideos = (case None of None \<Rightarrow> 1 | Some c \<Rightarrow> c),
             aspectRatio = ''16:9''\<rparr> =
            (Inr \<lparr>op_name = ''op'', op_done = None, op_response = None\<rparr>, 0)" for final
    by (rule sample_submit)
  have zero: "op_response \<lparr>op_name = ''op'', op_done = Some True, op_response = no_videos\<rparr> = None
      \<or> (\<exists>response. op_response \<lparr>op_name = ''op'', op_done = Some True, op_response = no_videos\<rparr>
                        = Some response
            \<and> (generatedVideos response = None \<or> generatedVideos response = Some []))"
    by (simp add: no_videos_def)
  have absent: "op_response \<lparr>op_name = ''op'', op_done = Some True, op_response = None\<rparr> = None
      \<or> (\<exists>response. op_response \<lparr>op_name = ''op'', op_done = Some True, op_response = None\<rparr>
                        = Some response
            \<and> (generatedVideos response = None \<or> generatedVideos response = Some []))"
    by simp
  from no_videos_generated_error [OF sub sample_poll zero]
    no_videos_generated_error [OF sub sample_poll absent]
  show ?thesis by simp
qed

text \<open>
  Claim C3: in every run of \<open>generateVideoFromText\<close>, however long it is followed and
  however it ends, each observation of an operation that is not done is followed by a
  status re-fetch before the next observation, and every operation handed to the
  status re-fetch is one that is not done. The loop exits at once upon observing a done
  operation: the loop then returns that operation, the observation is its last event
  and nothing was re-fetched, waited for or checked in between; an operation that is
  done when the loop is entered is returned without any re-fetch and with the state of
  the backend untouched. The call then settles with what collecting the media of that
  operation gives, and no status re-fetch, check or wait follows the observation.
\<close>

theorem polling_stops_at_done:
  "every_incomplete_polled (snd (snd (generateVideoFromText fuel env w p count)))
   \<and> stops_at_done (snd (snd (generateVideoFromText fuel env w p count)))
   \<and> no_poll_after_done (snd (snd (generateVideoFromText fuel env w p count)))
   \<and> (\<forall>polled_op \<in> set (polled (snd (snd (generateVideoFromText fuel env w p count)))).
         op_done polled_op \<noteq> Some True)
   \<and> (CheckDone True \<in> set (snd (snd (generateVideoFromText fuel env w p count))) \<longrightarrow>
         (\<exists>finished w2 tr0.
            op_done finished = Some True
            \<and> generateVideoFromText fuel env w p count =
                (Some (fst (collect env w2 finished)), w2,
                 GenerateVideos \<lparr>model = VEO_MODEL_NAME, prompt = p,
                    numberOfVideos = (case count of None \<Rightarrow> 1 | Some c \<Rightarrow> c),
                    aspectRatio = ''16:9''\<rparr>
                 # tr0 @ CheckDone True # snd (collect env w2 finished))
            \<and> CheckDone True \<notin> set tr0))
   \<and> (CheckDone True \<in> set (snd (snd (poll_loop fuel env w0 operation))) \<longrightarrow>
         (\<exists>finished tr0.
            fst (poll_loop fuel env w0 operation) = Some (Inr finished)
            \<and> op_done finished = Some True
            \<and> snd (snd (poll_loop fuel env w0 operation)) = tr0 @ [CheckDone True]
            \<and> CheckDone True \<notin> set tr0))
   \<and> ((\<exists>finished. fst (poll_loop fuel env w0 operation) = Some (Inr finished)) \<longrightarrow>
         CheckDone True \<in> set (snd (snd (poll_loop fuel env w0 operation))))
   \<and> (op_done operation = Some True \<longrightarrow>
         poll_loop (Suc fuel) env w0 operation = (Some (Inr operation), w0, [CheckDone True]))"
proof -
  obtain r w' tr where lp: "poll_loop fuel env w0 operation = (r, w', tr)"
    by (cases "poll_loop fuel env w0 operation")
  have loop: "(CheckDone True \<in> set (snd (snd (poll_loop fuel env w0 operation))) \<longrightarrow>
         (\<exists>finished tr0.
            fst (poll_loop fuel env w0 operation) = Some (Inr finished)
            \<and> op_done finished = Some True
            \<and> snd (snd (poll_loop fuel env w0 operation)) = tr0 @ [CheckDone True]
            \<and> CheckDone True \<notin> set tr0))
   \<and> ((\<exists>finished. fst (poll_loop fuel env w0 operation) = Some (Inr finished)) \<longrightarrow>
         CheckDone True \<in> set (snd (snd (poll_loop fuel env w0 operation))))"
    using poll_loop_exit [OF lp] by (simp add: lp)
  have entered: "op_done operation = Some True \<longrightarrow>
         poll_loop (Suc fuel) env w0 operation = (Some (Inr operation), w0, [CheckDone True])"
    by simp
  obtain trace where
    t: "snd (snd (generateVideoFromText fuel env w p count)) =
          GenerateVideos \<lparr>model = VEO_MODEL_NAME, prompt = p,
             numberOfVideos = (case count of None \<Rightarrow> 1 | Some c \<Rightarrow> c),
             aspectRatio = ''16:9''\<rparr> # trace"
    and d: "every_incomplete_polled trace" "stops_at_done trace" "no_poll_after_done trace"
      "\<forall>polled_op \<in> set (polled trace). op_done polled_op \<noteq> Some True"
    and e: "CheckDone True \<in> set trace \<longrightarrow>
             (\<exists>finished w2 tr0.
                op_done finished = Some True
                \<and> generateVideoFromText fuel env w p count =
                    (Some (fst (collect env w2 finished)), w2,
                     GenerateVideos \<lparr>model = VEO_MODEL_NAME, prompt = p,
                        numberOfVideos = (case count of None \<Rightarrow> 1 | Some c \<Rightarrow> c),
                        aspectRatio = ''16:9''\<rparr>
                     # tr0 @ CheckDone True # snd (collect env w2 finished))
                \<and> CheckDone True \<notin> set tr0)"
    using generate_trace [of fuel env w p count] by blast
  have run: "every_incomplete_polled (snd (snd (generateVideoFromText fuel env w p count)))
   \<and> stops_at_done (snd (snd (generateVideoFromText fuel env w p count)))
   \<and> no_poll_after_done (snd (snd (generateVideoFromText fuel env w p count)))
   \<and> (\<forall>polled_op \<in> set (polled (snd (snd (generateVideoFromText fuel env w p count)))).
         op_done polled_op \<noteq> Some True)"
    using d by (simp add: t)
  have settled: "CheckDone True \<in> set (snd (snd (generateVideoFromText fuel env w p count))) \<longrightarrow>
         (\<exists>finished w2 tr0.
            op_done finished = Some True
            \<and> generateVideoFromText fuel env w p count =
                (Some (fst (collect env w2 finished)), w2,
                 GenerateVideos \<lparr>model = VEO_MODEL_NAME, prompt = p,
                    numberOfVideos = (case count of None \<Rightarrow> 1 | Some c \<Rightarrow> c),
                    aspectRatio = ''16:9''\<rparr>
                 # tr0 @ CheckDone True # snd (collect env w2 finished))
            \<and> CheckDone True \<notin> set tr0)"
    using e by (simp add: t)
  from run settled loop entered show ?thesis
    by (intro conjI) blast+
qed

theorem polling_stops_at_done_witness:
  "generateVideoFromText 3 (sample_env two_videos serve_all) 0 ''a cat'' None =
     (Some (Inr [Some ''QQ=='', Some ''Qg=='']), 2,
      [GenerateVideos \<lparr>model = ''veo-2.0-generate-001'', prompt = ''a cat'',
                       numberOfVideos = 1, aspectRatio = ''16:9''\<rparr>,
       CheckDone False, SetTimeout 10000, ConsoleLog [''...Generating...''],
       GetVideosOperation \<lparr>op_name = ''op'', op_done = None, op_response = None\<rparr>,
       CheckDone False, SetTimeout 10000, ConsoleLog [''...Generating...''],
       GetVideosOperation \<lparr>op_name = ''op'', op_done = Some False, op_response = None\<rparr>,
       CheckDone True, Fetch ''m/a&key=K'', Fetch ''m/b&key=K''])
   \<and> fst (generateVideoFromText 2 (sample_env two_videos serve_all) 0 ''a cat'' None) = None
   \<and> poll_loop 3 (sample_env two_videos serve_all) 0
        \<lparr>op_name = ''op'', op_done = None, op_response = None\<rparr> =
      (Some (Inr \<lparr>op_name = ''op'', op_done = Some True, op_response = two_videos\<rparr>), 2,
       [CheckDone False, SetTimeout 10000, ConsoleLog [''...Generating...''],
        GetVideosOperation \<lparr>op_name = ''op'', op_done = None, op_response = None\<rparr>,
        CheckDone False, SetTimeout 10000, ConsoleLog [''...Generating...''],
        GetVideosOperation \<lparr>op_name = ''op'', op_done = Some False, op_response = None\<rparr>,
        CheckDone True])
   \<and> every_incomplete_polled
       (snd (snd (generateVideoFromText 3 (sample_env two_videos serve_all) 0 ''a cat'' None)))
   \<and> stops_at_done
       (snd (snd (generateVideoFromText 3 (sample_env two_videos serve_all) 0 ''a cat'' None)))
   \<and> no_poll_after_done
       (snd (snd (generateVideoFromText 3 (sample_env two_videos serve_all) 0 ''a cat'' None)))"
proof -
  have run: "generateVideoFromText 3 (sample_env two_videos serve_all) 0 ''a cat'' None =
     (Some (Inr [Some ''QQ=='', Some ''Qg=='']), 2,
      [GenerateVideos \<lparr>model = ''veo-2.0-generate-001'', prompt = ''a cat'',
                       numberOfVideos = 1, aspectRatio = ''16:9''\<rparr>,
       CheckDone False, SetTimeout 10000, ConsoleLog [''...Generating...''],
       GetVideosOperation \<lparr>op_name = ''op'', op_done = None, op_response = None\<rparr>,
       CheckDone False, SetTimeout 10000, ConsoleLog [''...Generating...''],
       GetVideosOperation \<lparr>op_name = ''op'', op_done = Some False, op_response = None\<rparr>,
       CheckDone True, Fetch ''m/a&key=K'', Fetch ''m/b&key=K''])"
    by (simp add: sample_run_ok poll_round_def VEO_MODEL_NAME_def)
  have pending: "fst (generateVideoFromText 2 (sample_env two_videos serve_all) 0 ''a cat'' None) = None"
    by (simp add: generateVideoFromText_def Let_def sample_env_def eval_nat_numeral)
  have loop: "poll_loop 3 (sample_env two_videos serve_all) 0
        \<lparr>op_name = ''op'', op_done = None, op_response = None\<rparr> =
      (Some (Inr \<lparr>op_name = ''op'', op_done = Some True, op_response = two_videos\<rparr>), 2,
       [CheckDone False, SetTimeout 10000, ConsoleLog [''...Generating...''],
        GetVideosOperation \<lparr>op_name = ''op'', op_done = None, op_response = None\<rparr>,
        CheckDone False, SetTimeout 10000, ConsoleLog [''...Generating...''],
        GetVideosOperation \<lparr>op_name = ''op'', op_done = Some False, op_response = None\<rparr>,
        CheckDone True])"
    by (simp add: sample_poll poll_round_def)
  from polling_stops_at_done [of 3 "sample_env two_videos serve_all" 0 "''a cat''" None]
  have "every_incomplete_polled
       (snd (snd (generateVideoFromText 3 (sample_env two_videos serve_all) 0 ''a cat'' None)))
   \<and> stops_at_done
       (snd (snd (generateVideoFromText 3 (sample_env two_videos serve_all) 0 ''a cat'' None)))
   \<and> no_poll_after_done
       (snd (snd (generateVideoFromText 3 (sample_env two_videos serve_all) 0 ''a cat'' None)))"
    by blast
  with run pending loop show ?thesis
    by (intro conjI) simp_all
qed

text \<open>
  Claim C4, as the specification words it: a non-success status of any one media fetch
  makes the whole call fail with an error carrying that status and its text. The call
  fails, but with the reason of the download that was rejected first. Here the job
  completes with two references; the fetch of the first throws, the server being out of
  reach, and the fetch of the second is then answered 403 Forbidden: the call fails
  with the error of the first, which carries no status at all.
\<close>

theorem fetch_status_error_counterexample:
  "generateVideos (sample_env two_videos lose_a_forbid_b) 0
     \<lparr>model = VEO_MODEL_NAME, prompt = ''a cat'', numberOfVideos = 2, aspectRatio = ''16:9''\<rparr> =
     (Inr \<lparr>op_name = ''op'', op_done = None, op_response = None\<rparr>, 0)
   \<and> poll_loop 3 (sample_env two_videos lose_a_forbid_b) 0
       \<lparr>op_name = ''op'', op_done = None, op_response = None\<rparr> =
     (Some (Inr \<lparr>op_name = ''op'', op_done = Some True,
                 op_response =
                   Some \<lparr>generatedVideos = Some [\<lparr>uri = ''m/a''\<rparr>, \<lparr>uri = ''m/b''\<rparr>]\<rparr>\<rparr>),
      2,
      poll_round \<lparr>op_name = ''op'', op_done = None, op_response = None\<rparr>
      @ poll_round \<lparr>op_name = ''op'', op_done = Some False, op_response = None\<rparr>
      @ [CheckDone True])
   \<and> decodeURIComponent (sample_env two_videos lose_a_forbid_b) ''m/b'' = Inr ''m/b''
   \<and> fetch (sample_env two_videos lose_a_forbid_b) 2
        (media_url (sample_env two_videos lose_a_forbid_b) ''m/b'') =
      Inr \<lparr>ok = False, status = 403, statusText = ''Forbidden'', blob = Inr []\<rparr>
   \<and> settled_at (sample_env two_videos lose_a_forbid_b) 0
       < settled_at (sample_env two_videos lose_a_forbid_b) 1
   \<and> fst (generateVideoFromText 3 (sample_env two_videos lose_a_forbid_b) 0 ''a cat'' (Some 2)) =
      Some (Inl (JsError (JsString ''Failed to fetch'')))
   \<and> fst (generateVideoFromText 3 (sample_env two_videos lose_a_forbid_b) 0 ''a cat'' (Some 2)) \<noteq>
      Some (Inl (JsError (JsString
                   (''Failed to fetch video: '' @ show_nat 403 @ '' '' @ ''Forbidden''))))"
proof -
  have "poll_loop 3 (sample_env two_videos lose_a_forbid_b) 0
       \<lparr>op_name = ''op'', op_done = None, op_response = None\<rparr> =
     (Some (Inr \<lparr>op_name = ''op'', op_done = Some True,
                 op_response =
                   Some \<lparr>generatedVideos = Some [\<lparr>uri = ''m/a''\<rparr>, \<lparr>uri = ''m/b''\<rparr>]\<rparr>\<rparr>),
      2,
      poll_round \<lparr>op_name = ''op'', op_done = None, op_response = None\<rparr>
      @ poll_round \<lparr>op_name = ''op'', op_done = Some False, op_response = None\<rparr>
      @ [CheckDone True])"
    using sample_poll [of two_videos lose_a_forbid_b]
    by (simp add: two_videos_def)
  moreover have "decodeURIComponent (sample_env two_videos lose_a_forbid_b) ''m/b'' = Inr ''m/b''"
    by (simp add: sample_env_def)
  moreover have "fetch (sample_env two_videos lose_a_forbid_b) 2
        (media_url (sample_env two_videos lose_a_forbid_b) ''m/b'') =
      Inr \<lparr>ok = False, status = 403, statusText = ''Forbidden'', blob = Inr []\<rparr>"
    by (simp add: sample_env_def media_url_def template_def forbid_b_def lose_a_forbid_b_def)
  ultimately show ?thesis
    by (simp add: sample_submit sample_run_lost sample_settled show_nat.simps)
qed

text \<open>
  Claim C4, amended: when the job completes with references and the fetch of one of
  them is answered with a non-success status, the whole call fails and returns no list,
  whatever became of the other media. It fails with the error of the download that is
  rejected first: of a download that failed, such that no failed download was rejected
  earlier and none of a smaller index at the same time. So the error is the one
  carrying the numeric status and the status text of this response whenever this
  download is rejected before every other download that fails, in particular when no
  other download fails.
\<close>

theorem failed_fetch_fails_call:
  assumes sub: "generateVideos env w
            \<lparr>model = VEO_MODEL_NAME, prompt = p,
             numberOfVideos = (case count of None \<Rightarrow> 1 | Some c \<Rightarrow> c),
             aspectRatio = ''16:9''\<rparr> = (Inr operation, w1)"
    and fin: "poll_loop fuel env w1 operation = (Some (Inr finished), w2, tr)"
    and resp: "op_response finished = Some response"
    and refs: "generatedVideos response = Some refs"
    and i: "i < length refs"
    and dec: "decodeURIComponent env (uri (refs ! i)) = Inr url"
    and fet: "fetch env w2 (media_url env url) = Inr res"
    and bad: "\<not> ok res"
  shows "(\<exists>e j. fst (generateVideoFromText fuel env w p count) = Some (Inl e)
            \<and> j < length refs \<and> download env w2 (refs ! j) = Inl e
            \<and> (\<forall>k < length refs. (\<exists>e'. download env w2 (refs ! k) = Inl e')
                  \<longrightarrow> settled_at env j \<le> settled_at env k
                      \<and> (k < j \<longrightarrow> settled_at env j < settled_at env k)))
         \<and> ((\<forall>j < length refs. j \<noteq> i \<longrightarrow> (\<exists>e'. download env w2 (refs ! j) = Inl e')
                \<longrightarrow> settled_at env i < settled_at env j)
              \<longrightarrow> fst (generateVideoFromText fuel env w p count) =
                    Some (Inl (JsError (JsString
                      (''Failed to fetch video: '' @ show_nat (status res)
                         @ '' '' @ statusText res)))))"
proof -
  let ?rs = "map (download env w2) refs"
  let ?e = "JsError (JsString
              (''Failed to fetch video: '' @ show_nat (status res) @ '' '' @ statusText res))"
  have di: "download env w2 (refs ! i) = Inl ?e"
    using dec fet bad by (simp add: download_def)
  have ne: "refs \<noteq> []" using i by auto
  have run: "fst (generateVideoFromText fuel env w p count) =
               Some (promise_all (settled_at env) ?rs)"
    using generate_after_completion [OF sub fin] collect_references [OF resp refs ne]
    by simp
  have ri: "i < length ?rs" "?rs ! i = Inl ?e"
    using i di by simp_all
  from promise_all_rejected [OF ri, of "settled_at env"]
  obtain e' j where
    pa: "promise_all (settled_at env) ?rs = Inl e'" and j: "j < length ?rs" "?rs ! j = Inl e'"
    and least: "\<forall>k < length ?rs. (\<exists>e''. ?rs ! k = Inl e'')
                  \<longrightarrow> settled_at env j \<le> settled_at env k
                      \<and> (k < j \<longrightarrow> settled_at env j < settled_at env k)"
    by blast
  have "fst (generateVideoFromText fuel env w p count) = Some (Inl e')
            \<and> j < length refs \<and> download env w2 (refs ! j) = Inl e'
            \<and> (\<forall>k < length refs. (\<exists>e'. download env w2 (refs ! k) = Inl e')
                  \<longrightarrow> settled_at env j \<le> settled_at env k
                      \<and> (k < j \<longrightarrow> settled_at env j < settled_at env k))"
    using run pa j least by simp
  then have first: "\<exists>e j. fst (generateVideoFromText fuel env w p count) = Some (Inl e)
            \<and> j < length refs \<and> download env w2 (refs ! j) = Inl e
            \<and> (\<forall>k < length refs. (\<exists>e'. download env w2 (refs ! k) = Inl e')
                  \<longrightarrow> settled_at env j \<le> settled_at env k
                      \<and> (k < j \<longrightarrow> settled_at env j < settled_at env k))"
    by blast
  have second: "fst (generateVideoFromText fuel env w p count) = Some (Inl ?e)"
    if "\<forall>j < length refs. j \<noteq> i \<longrightarrow> (\<exists>e'. download env w2 (refs ! j) = Inl e')
                \<longrightarrow> settled_at env i < settled_at env j"
  proof -
    have "promise_all (settled_at env) ?rs = Inl ?e"
      by (rule promise_all_first [OF ri]) (use that in simp)
    with run show ?thesis by simp
  qed
  from first second show ?thesis by blast
qed

theorem failed_fetch_fails_call_witness:
  "download (sample_env two_videos forbid_a_lose_b) 2 \<lparr>uri = ''m/a''\<rparr> =
     Inl (JsError (JsString ''Failed to fetch video: 403 Forbidden''))
   \<and> download (sample_env two_videos forbid_a_lose_b) 2 \<lparr>uri = ''m/b''\<rparr> =
     Inl (JsError (JsString ''Failed to fetch''))
   \<and> settled_at (sample_env two_videos forbid_a_lose_b) 0
       < settled_at (sample_env two_videos forbid_a_lose_b) 1
   \<and> fst (generateVideoFromText 3 (sample_env two_videos forbid_a_lose_b) 0 ''a cat'' (Some 2)) =
     Some (Inl (JsError (JsString ''Failed to fetch video: 403 Forbidden'')))"
proof -
  let ?env = "sample_env two_videos forbid_a_lose_b"
  let ?refs = "[\<lparr>uri = ''m/a''\<rparr>, \<lparr>uri = ''m/b''\<rparr>]"
  let ?res = "\<lparr>ok = False, status = 403, statusText = ''Forbidden'', blob = Inr []\<rparr>"
  have sub: "generateVideos ?env 0
            \<lparr>model = VEO_MODEL_NAME, prompt = ''a cat'',
             numberOfVideos = (case Some 2 of None \<Rightarrow> 1 | Some c \<Rightarrow> c),
             aspectRatio = ''16:9''\<rparr> =
            (Inr \<lparr>op_name = ''op'', op_done = None, op_response = None\<rparr>, 0)"
    by (rule sample_submit)
  have resp: "op_response \<lparr>op_name = ''op'', op_done = Some True, op_response = two_videos\<rparr> =
            Some \<lparr>generatedVideos = Some ?refs\<rparr>"
    by (simp add: two_videos_def)
  have refs: "generatedVideos \<lparr>generatedVideos = Some ?refs\<rparr> = Some ?refs"
    by simp
  have i: "0 < length ?refs" by simp
  have dec: "decodeURIComponent ?env (uri (?refs ! 0)) = Inr ''m/a''"
    by (simp add: sample_env_def)
  have fet: "fetch ?env 2 (media_url ?env ''m/a'') = Inr ?res"
    by (simp add: sample_env_def media_url_def template_def forbid_a_lose_b_def)
  have bad: "\<not> ok ?res" by simp
  have before: "\<forall>j < length ?refs. j \<noteq> 0 \<longrightarrow> (\<exists>e'. download ?env 2 (?refs ! j) = Inl e')
                \<longrightarrow> settled_at ?env 0 < settled_at ?env j"
    by (simp add: less_Suc_eq sample_settled)
  have order: "settled_at ?env 0 < settled_at ?env 1"
    by (simp add: sample_settled)
  from failed_fetch_fails_call [OF sub sample_poll resp refs i dec fet bad] before
  have "fst (generateVideoFromText 3 ?env 0 ''a cat'' (Some 2)) =
     Some (Inl (JsError (JsString ''Failed to fetch video: 403 Forbidden'')))"
    by (simp add: show_nat.simps)
  with order show ?thesis
    by (simp add: sample_downloads)
qed

section \<open>The two callers\<close>

text \<open>
  The counter stops growing at 2^53, steps by 2 between the doubles above it, and a
  counter that is not a number stays so.
\<close>

lemma js_add_one_samples:
  "js_add_one (Finite 0) = Finite 1"
  "js_add_one (Finite 9007199254740991) = Finite 9007199254740992"
  "js_add_one (Finite 9007199254740992) = Finite 9007199254740992"
  "js_add_one (Finite 9007199254740994) = Finite 9007199254740996"
  "js_add_one NaN = NaN"
  by (simp_all add: js_add_one_def)



end
